theory Spec2Isabelle
  imports Main "HOL-Library.Char_ord" "HOL-Library.List_Lexorder"
begin

section \<open>The ReAct agent loop and its tools\<close>

text \<open>
  A shallow embedding of the agent loops of \<^verbatim>\<open>archive_poc/react.py\<close>,
  \<^verbatim>\<open>archive_poc/streaming.py\<close> and
  \<^verbatim>\<open>archive_poc/archive_refactored/agents/base.py\<close>, and of the spending tools of
  \<^verbatim>\<open>archive_poc/archive_refactored/tools/spending.py\<close>.

  Conventions:
  \<^item> a Python exception is a value \<open>Inl e\<close> of a sum type; nothing in the loops catches
    one, so every \<open>Inl\<close> travels to the caller;
  \<^item> the language model is an arbitrary stateful client: a function from its own state
    and the conversation to a response (or an exception) and its next state;
  \<^item> a tool is a function from the argument dictionary to a string (or an exception);
  \<^item> the \<^verbatim>\<open>verbose\<close> printing has no effect on any value and is left out.
\<close>

subsection \<open>Messages, tool calls, exceptions\<close>

datatype arg_value = StrArg string | IntArg int

type_synonym tool_args = "(string \<times> arg_value) list"

text \<open>A tool call is the dictionary with the keys \<^verbatim>\<open>name\<close>, \<^verbatim>\<open>args\<close> and \<^verbatim>\<open>id\<close>.\<close>

record tool_call =
  tc_name :: string
  tc_args :: tool_args
  tc_id :: string

text \<open>
  An \<^verbatim>\<open>AIMessage\<close> (and an \<^verbatim>\<open>AIMessageChunk\<close>) as the loops read it: its
  \<^verbatim>\<open>content\<close> and its \<^verbatim>\<open>tool_calls\<close>.
\<close>

record ai_message =
  content :: string
  tool_calls :: "tool_call list"

datatype message =
    HumanMessage string
  | AIMessage string "tool_call list"
  | ToolMessage string string

datatype exn = LLMException string | ToolException string

type_synonym tool = "tool_args \<Rightarrow> exn + string"

type_synonym 's llm = "'s \<Rightarrow> message list \<Rightarrow> (exn + ai_message) \<times> 's"

type_synonym 's llm_stream = "'s \<Rightarrow> message list \<Rightarrow> (exn + ai_message list) \<times> 's"

subsection \<open>Executing one tool call, in the four loop variants\<close>

text \<open>\<^verbatim>\<open>BaseAgent._execute_tool\<close> (base.py, lines 82 to 95).\<close>

definition execute_tool :: "(string \<rightharpoonup> tool) \<Rightarrow> tool_call \<Rightarrow> exn + string" where
  "execute_tool tool_map tool_call =
     (case tool_map (tc_name tool_call) of
        Some t \<Rightarrow> t (tc_args tool_call)
      | None \<Rightarrow> Inr (''Error: Unknown tool '' @ [CHR 0x27] @ tc_name tool_call @ [CHR 0x27]))"

text \<open>The tool execution inside \<^verbatim>\<open>run_agent\<close> (react.py, lines 192 and 193).\<close>

definition run_agent_tool :: "(string \<rightharpoonup> tool) \<Rightarrow> tool_call \<Rightarrow> exn + string" where
  "run_agent_tool tool_map tool_call =
     (case tool_map (tc_name tool_call) of
        Some t \<Rightarrow> t (tc_args tool_call)
      | None \<Rightarrow> Inr (''Error: Unknown tool '' @ tc_name tool_call))"

text \<open>The tool execution inside \<^verbatim>\<open>run_agent_loop\<close> (base.py, lines 155 and 156).\<close>

definition run_agent_loop_tool :: "(string \<rightharpoonup> tool) \<Rightarrow> tool_call \<Rightarrow> exn + string" where
  "run_agent_loop_tool tool_map tool_call =
     (case tool_map (tc_name tool_call) of
        Some t \<Rightarrow> t (tc_args tool_call)
      | None \<Rightarrow> Inr (''Unknown tool: '' @ tc_name tool_call))"

text \<open>
  The tool execution inside \<^verbatim>\<open>demo_streaming_with_tools\<close> (streaming.py, lines 166
  and 167).
\<close>

definition streaming_tool :: "(string \<rightharpoonup> tool) \<Rightarrow> tool_call \<Rightarrow> exn + string" where
  "streaming_tool tool_map tool_call =
     (case tool_map (tc_name tool_call) of
        Some t \<Rightarrow> t (tc_args tool_call)
      | None \<Rightarrow> Inr (''Unknown tool: '' @ tc_name tool_call))"

subsection \<open>The body of one iteration\<close>

text \<open>
  The inner loop \<^verbatim>\<open>for tool_call in response.tool_calls\<close>: each result is appended to
  \<^verbatim>\<open>messages\<close> as a \<^verbatim>\<open>ToolMessage\<close>. The list is mutated in place, so the
  function returns it, together with the exception that stopped the loop, if any.
\<close>

fun dispatch ::
  "(tool_call \<Rightarrow> exn + string) \<Rightarrow> tool_call list \<Rightarrow> message list \<Rightarrow> message list \<times> exn option"
where
  "dispatch exec [] messages = (messages, None)"
| "dispatch exec (tool_call # rest) messages =
     (case exec tool_call of
        Inl e \<Rightarrow> (messages, Some e)
      | Inr result \<Rightarrow> dispatch exec rest (messages @ [ToolMessage result (tc_id tool_call)]))"

text \<open>What one iteration does to the loop: return a value, raise, or go round again.\<close>

datatype 's flow = Return string | Raise exn | Continue 's "message list"

text \<open>
  The body shared by \<^verbatim>\<open>BaseAgent.invoke\<close>, \<^verbatim>\<open>run_agent_loop\<close> and
  \<^verbatim>\<open>run_agent\<close>: call the model; with tool calls, append the response and run the
  tools; without, return the content.
\<close>

definition agent_turn ::
  "(tool_call \<Rightarrow> exn + string) \<Rightarrow> 's llm \<Rightarrow> 's \<Rightarrow> message list \<Rightarrow> 's flow"
where
  "agent_turn exec llm s messages =
     (case llm s messages of
        (Inl e, s') \<Rightarrow> Raise e
      | (Inr response, s') \<Rightarrow>
          if tool_calls response \<noteq> [] then
            (case dispatch exec (tool_calls response)
                    (messages @ [AIMessage (content response) (tool_calls response)]) of
               (messages', Some e) \<Rightarrow> Raise e
             | (messages', None) \<Rightarrow> Continue s' messages')
          else Return (content response))"

text \<open>
  The draining loop \<^verbatim>\<open>for chunk in llm_with_tools.stream(messages)\<close> of
  \<^verbatim>\<open>BaseAgent.stream\<close> (base.py, lines 110 to 115) and of
  \<^verbatim>\<open>demo_streaming_with_tools\<close> (streaming.py, lines 139 to 146), with its two
  accumulators.
\<close>

fun collect ::
  "ai_message list \<Rightarrow> string \<Rightarrow> tool_call list \<Rightarrow> string \<times> tool_call list"
where
  "collect [] collected_content collected_tool_calls =
     (collected_content, collected_tool_calls)"
| "collect (chunk # chunks) collected_content collected_tool_calls =
     collect chunks
       (if content chunk \<noteq> [] then collected_content @ content chunk else collected_content)
       (if tool_calls chunk \<noteq> [] then collected_tool_calls @ tool_calls chunk
        else collected_tool_calls)"

text \<open>The body of one iteration of the streaming loops.\<close>

definition stream_turn ::
  "(tool_call \<Rightarrow> exn + string) \<Rightarrow> 's llm_stream \<Rightarrow> 's \<Rightarrow> message list \<Rightarrow> 's flow"
where
  "stream_turn exec llm s messages =
     (case llm s messages of
        (Inl e, s') \<Rightarrow> Raise e
      | (Inr chunks, s') \<Rightarrow>
          (case collect chunks [] [] of
             (collected_content, collected_tool_calls) \<Rightarrow>
               if collected_tool_calls \<noteq> [] then
                 (case dispatch exec collected_tool_calls
                         (messages @ [AIMessage collected_content collected_tool_calls]) of
                    (messages', Some e) \<Rightarrow> Raise e
                  | (messages', None) \<Rightarrow> Continue s' messages')
               else Return collected_content))"

subsection \<open>The loops\<close>

text \<open>
  What a loop hands to its caller: the returned string or the exception that left it,
  and the number of calls it made to the model.
\<close>

record outcome =
  returned :: "exn + string"
  model_calls :: nat

text \<open>
  \<^verbatim>\<open>for iteration in range(1, max_iterations + 1)\<close>, with the string returned after
  the loop as a parameter.
\<close>

fun for_range ::
  "('s \<Rightarrow> message list \<Rightarrow> 's flow) \<Rightarrow> string \<Rightarrow> int list \<Rightarrow> 's \<Rightarrow> message list \<Rightarrow> nat \<Rightarrow> outcome"
where
  "for_range turn final [] s messages calls = \<lparr>returned = Inr final, model_calls = calls\<rparr>"
| "for_range turn final (iteration # rest) s messages calls =
     (case turn s messages of
        Return answer \<Rightarrow> \<lparr>returned = Inr answer, model_calls = calls + 1\<rparr>
      | Raise e \<Rightarrow> \<lparr>returned = Inl e, model_calls = calls + 1\<rparr>
      | Continue s' messages' \<Rightarrow> for_range turn final rest s' messages' (calls + 1))"

text \<open>\<^verbatim>\<open>while iteration < max_iterations: iteration += 1; ...\<close>\<close>

function while_iteration ::
  "('s \<Rightarrow> message list \<Rightarrow> 's flow) \<Rightarrow> string \<Rightarrow> int \<Rightarrow> int \<Rightarrow> 's \<Rightarrow> message list \<Rightarrow> nat \<Rightarrow> outcome"
where
  "while_iteration turn final max_iterations iteration s messages calls =
     (if iteration < max_iterations then
        (case turn s messages of
           Return answer \<Rightarrow> \<lparr>returned = Inr answer, model_calls = calls + 1\<rparr>
         | Raise e \<Rightarrow> \<lparr>returned = Inl e, model_calls = calls + 1\<rparr>
         | Continue s' messages' \<Rightarrow>
             while_iteration turn final max_iterations (iteration + 1) s' messages' (calls + 1))
      else \<lparr>returned = Inr final, model_calls = calls\<rparr>)"
  by pat_completeness auto
termination
  by (relation "measure (\<lambda>(turn, final, max_iterations, iteration, s, messages, calls).
        nat (max_iterations - iteration))") auto

declare while_iteration.simps [simp del]

text \<open>\<^verbatim>\<open>BaseAgent.invoke\<close> (base.py, lines 49 to 80).\<close>

definition invoke ::
  "'s llm \<Rightarrow> 's \<Rightarrow> (string \<rightharpoonup> tool) \<Rightarrow> string \<Rightarrow> int \<Rightarrow> string \<Rightarrow> outcome"
where
  "invoke llm s tool_map system_prompt max_iterations question =
     for_range (agent_turn (execute_tool tool_map) llm)
       ''Max iterations reached without final answer''
       [1..max_iterations] s
       [HumanMessage (system_prompt @ [CHR 0x0A, CHR 0x0A] @ ''Question: '' @ question)] 0"

text \<open>\<^verbatim>\<open>run_agent_loop\<close> (base.py, lines 129 to 164).\<close>

definition run_agent_loop ::
  "'s llm \<Rightarrow> 's \<Rightarrow> (string \<rightharpoonup> tool) \<Rightarrow> message list \<Rightarrow> int \<Rightarrow> outcome"
where
  "run_agent_loop llm s tool_map messages max_iterations =
     for_range (agent_turn (run_agent_loop_tool tool_map) llm)
       ''Max iterations reached'' [1..max_iterations] s messages 0"

text \<open>
  \<^verbatim>\<open>run_agent\<close> (react.py, lines 135 to 204). The prompt is the fixed text of
  lines 150 to 157, ending in the question.
\<close>

definition run_agent_prompt :: "string \<Rightarrow> string" where
  "run_agent_prompt user_question =
     ''You are a financial analyst. Use the available tools to answer questions.''
     @ [CHR 0x0A, CHR 0x0A] @ ''CRITICAL RULES:'' @ [CHR 0x0A]
     @ ''1. Call the appropriate tool to get data'' @ [CHR 0x0A]
     @ ''2. After receiving tool results, REPEAT THE EXACT NUMBERS in your answer'' @ [CHR 0x0A]
     @ ''3. Your final answer MUST contain the specific dollar amounts and counts from the tool''
     @ [CHR 0x0A, CHR 0x0A] @ ''Question: '' @ user_question"

definition run_agent :: "'s llm \<Rightarrow> 's \<Rightarrow> (string \<rightharpoonup> tool) \<Rightarrow> string \<Rightarrow> outcome" where
  "run_agent llm s tool_map user_question =
     while_iteration (agent_turn (run_agent_tool tool_map) llm)
       ''Max iterations reached without final answer''
       10 0 s [HumanMessage (run_agent_prompt user_question)] 0"

text \<open>
  The loop of \<^verbatim>\<open>demo_streaming_with_tools\<close> (streaming.py, lines 120 to 175), with
  the model and the question as parameters.
\<close>

definition streaming_prompt :: "string \<Rightarrow> string" where
  "streaming_prompt question =
     ''You are a financial analyst.'' @ [CHR 0x0A]
     @ ''Use tools to get data. Include exact numbers in your answer.'' @ [CHR 0x0A]
     @ ''Question: '' @ question"

definition demo_streaming_with_tools ::
  "'s llm_stream \<Rightarrow> 's \<Rightarrow> (string \<rightharpoonup> tool) \<Rightarrow> string \<Rightarrow> outcome"
where
  "demo_streaming_with_tools llm s tool_map question =
     while_iteration (stream_turn (streaming_tool tool_map) llm)
       ''Max iterations reached''
       5 0 s [HumanMessage (streaming_prompt question)] 0"

subsection \<open>The spending tools\<close>

text \<open>
  A row of the transaction table. \<^verbatim>\<open>tran_amt_in_ac\<close> is a decimal amount with two
  places; it is held here as a whole number of cents, and sums of amounts are the exact
  sums. The rounding of a sum of binary floating-point numbers is not part of this
  model: what is proved about totals is proved for exact decimal arithmetic.
\<close>

record row =
  cust_id :: string
  dr_cr_indctor :: string
  tran_date :: string
  tran_amt_in_ac :: int
  tran_type :: string
  category_of_txn :: string

text \<open>Python's \<^verbatim>\<open>str\<close> of an integer.\<close>

definition digit :: "nat \<Rightarrow> char" where
  "digit d = ''0123456789'' ! d"

fun str_nat :: "nat \<Rightarrow> string" where
  "str_nat n = (if n < 10 then [digit n] else str_nat (n div 10) @ [digit (n mod 10)])"

declare str_nat.simps [simp del]

definition str_int :: "int \<Rightarrow> string" where
  "str_int i = (if i < 0 then ''-'' @ str_nat (nat (- i)) else str_nat (nat i))"

text \<open>
  The format \<^verbatim>\<open>{amount:,.2f}\<close> of an amount in cents: a sign, the whole part in
  groups of three digits, a point, two digits.
\<close>

fun thousands :: "nat \<Rightarrow> string" where
  "thousands n =
     (if n < 1000 then str_nat n
      else thousands (n div 1000) @ '',''
           @ [digit (n mod 1000 div 100), digit (n mod 100 div 10), digit (n mod 10)])"

declare thousands.simps [simp del]

definition format_2f :: "int \<Rightarrow> string" where
  "format_2f amount =
     (let cents = nat \<bar>amount\<bar> in
        (if amount < 0 then ''-'' else []) @ thousands (cents div 100) @ ''.''
        @ [digit (cents mod 100 div 10), digit (cents mod 10)])"

text \<open>
  The selection \<^verbatim>\<open>df[(df['cust_id'] == customer_id) & (df['dr_cr_indctor'] == 'DR')]\<close>
  that three of the tools start with.
\<close>

definition debit_rows :: "row list \<Rightarrow> string \<Rightarrow> row list" where
  "debit_rows df customer_id =
     filter (\<lambda>r. cust_id r = customer_id \<and> dr_cr_indctor r = ''DR'') df"

text \<open>\<^verbatim>\<open>get_total_spending\<close> (spending.py, lines 10 to 26; react.py, lines 37 to 46).\<close>

definition get_total_spending :: "row list \<Rightarrow> string \<Rightarrow> string" where
  "get_total_spending df customer_id =
     (let filtered = debit_rows df customer_id;
          total = sum_list (map tran_amt_in_ac filtered)
      in ''Customer '' @ customer_id @ '' total spending: $'' @ format_2f total)"

text \<open>
  \<^verbatim>\<open>groupby('category_of_txn')['tran_amt_in_ac'].sum()\<close>: one entry per category that
  occurs, in the order of the sorted keys, with the sum of its amounts.
\<close>

definition category_total :: "row list \<Rightarrow> string \<Rightarrow> int" where
  "category_total rows c =
     sum_list (map tran_amt_in_ac (filter (\<lambda>r. category_of_txn r = c) rows))"

definition groupby_sum :: "row list \<Rightarrow> (string \<times> int) list" where
  "groupby_sum rows =
     map (\<lambda>c. (c, category_total rows c)) (sort (remdups (map category_of_txn rows)))"

text \<open>
  \<^verbatim>\<open>sort_values(ascending=False)\<close>: the series is reversed, sorted in ascending
  order of its values, and reversed again. The sort is taken to be stable; no property
  below depends on the order of equal totals.
\<close>

definition sort_values_descending :: "(string \<times> int) list \<Rightarrow> (string \<times> int) list" where
  "sort_values_descending series = rev (sort_key snd (rev series))"

text \<open>\<^verbatim>\<open>head(n)\<close> is the slice \<^verbatim>\<open>[:n]\<close>; a negative \<open>n\<close> drops from the end.\<close>

definition head :: "int \<Rightarrow> 'a list \<Rightarrow> 'a list" where
  "head n xs = (if 0 \<le> n then take (nat n) xs else take (length xs - nat (- n)) xs)"

text \<open>
  \<^verbatim>\<open>top_spending_categories\<close> (spending.py, lines 54 to 78; react.py, lines 98 to
  112): first the series \<^verbatim>\<open>top_cats\<close>, then the text built from it.
\<close>

definition top_cats :: "row list \<Rightarrow> string \<Rightarrow> int \<Rightarrow> (string \<times> int) list" where
  "top_cats df customer_id top_n =
     (let filtered = debit_rows df customer_id;
          category_totals = groupby_sum filtered
      in head top_n (sort_values_descending category_totals))"

definition top_spending_categories :: "row list \<Rightarrow> string \<Rightarrow> int \<Rightarrow> string" where
  "top_spending_categories df customer_id top_n =
     ''Top '' @ str_int top_n @ '' spending categories for '' @ customer_id @ '':'' @ [CHR 0x0A]
     @ concat (map (\<lambda>(i, cat, amt).
                 ''  '' @ str_nat i @ ''. '' @ cat @ '': $'' @ format_2f amt @ [CHR 0x0A])
               (enumerate 1 (top_cats df customer_id top_n)))"

text \<open>
  \<^verbatim>\<open>spending_in_date_range\<close> (spending.py, lines 81 to 103; adding_tools.py, lines
  133 to 148): first the selected rows, then the text. The dates are strings and are
  compared as strings.
\<close>

definition date_range_rows :: "row list \<Rightarrow> string \<Rightarrow> string \<Rightarrow> string \<Rightarrow> row list" where
  "date_range_rows df customer_id start_date end_date =
     filter (\<lambda>r. cust_id r = customer_id \<and> dr_cr_indctor r = ''DR''
                \<and> tran_date r \<ge> start_date \<and> tran_date r \<le> end_date) df"

definition spending_in_date_range :: "row list \<Rightarrow> string \<Rightarrow> string \<Rightarrow> string \<Rightarrow> string" where
  "spending_in_date_range df customer_id start_date end_date =
     (let filtered = date_range_rows df customer_id start_date end_date;
          total = sum_list (map tran_amt_in_ac filtered);
          count = length filtered
      in ''Customer '' @ customer_id @ '' spent $'' @ format_2f total @ '' between ''
         @ start_date @ '' and '' @ end_date @ '' ('' @ str_nat count @ '' transactions)'')"

text \<open>
  A tool as the loop calls it, \<^verbatim>\<open>tool_map[tool_name].invoke(tool_args)\<close>, for
  the \<^verbatim>\<open>get_total_spending\<close> of spending.py, whose parameter is declared
  \<^verbatim>\<open>customer_id: str\<close>: the decorated function receives the argument dictionary,
  and the call raises when the dictionary lacks the parameter or holds a value for it
  that is not a string. (The functions of react.py and adding_tools.py declare no type
  for the parameter; they raise on a missing parameter in the same way.)
\<close>

definition get_total_spending_tool :: "row list \<Rightarrow> tool" where
  "get_total_spending_tool df tool_args =
     (case map_of tool_args ''customer_id'' of
        Some (StrArg customer_id) \<Rightarrow> Inr (get_total_spending df customer_id)
      | _ \<Rightarrow> Inl (ToolException ''ValidationError: customer_id''))"

subsection \<open>Notions used to state the properties\<close>

text \<open>The implementation of a registered tool raises on this call.\<close>

definition tool_raises :: "(string \<rightharpoonup> tool) \<Rightarrow> tool_call \<Rightarrow> bool" where
  "tool_raises tool_map tool_call =
     (case tool_map (tc_name tool_call) of
        Some t \<Rightarrow> isl (t (tc_args tool_call))
      | None \<Rightarrow> False)"

text \<open>
  The next \<open>n\<close> iterations all end with their tool calls executed: none returns an
  answer and none raises.
\<close>

fun keeps_going :: "('s \<Rightarrow> message list \<Rightarrow> 's flow) \<Rightarrow> nat \<Rightarrow> 's \<Rightarrow> message list \<Rightarrow> bool" where
  "keeps_going turn 0 s messages = True"
| "keeps_going turn (Suc n) s messages =
     (case turn s messages of
        Continue s' messages' \<Rightarrow> keeps_going turn n s' messages'
      | Return answer \<Rightarrow> False
      | Raise e \<Rightarrow> False)"

text \<open>
  The two delivery modes as the specification words them: a fragment is a piece of text
  or one complete invocation, and the turn of a fragment sequence is the text fragments
  concatenated in order with the invocation fragments in order.
\<close>

datatype fragment = TextFragment string | InvocationFragment tool_call

fun fragment_text :: "fragment \<Rightarrow> string" where
  "fragment_text (TextFragment t) = t"
| "fragment_text (InvocationFragment i) = []"

fun fragment_invocations :: "fragment \<Rightarrow> tool_call list" where
  "fragment_invocations (TextFragment t) = []"
| "fragment_invocations (InvocationFragment i) = [i]"

definition spec_aggregate :: "fragment list \<Rightarrow> ai_message" where
  "spec_aggregate fragments =
     \<lparr>content = concat (map fragment_text fragments),
      tool_calls = concat (map fragment_invocations fragments)\<rparr>"

text \<open>The chunk that carries a fragment.\<close>

fun chunk_of :: "fragment \<Rightarrow> ai_message" where
  "chunk_of (TextFragment t) = \<lparr>content = t, tool_calls = []\<rparr>"
| "chunk_of (InvocationFragment i) = \<lparr>content = [], tool_calls = [i]\<rparr>"

subsection \<open>Sample data and model stubs\<close>

definition mk_row :: "string \<Rightarrow> string \<Rightarrow> string \<Rightarrow> int \<Rightarrow> string \<Rightarrow> row" where
  "mk_row c d t a k =
     \<lparr>cust_id = c, dr_cr_indctor = d, tran_date = t, tran_amt_in_ac = a,
      tran_type = ''UPI'', category_of_txn = k\<rparr>"

definition sample_df :: "row list" where
  "sample_df =
     [mk_row ''CUST0001'' ''DR'' ''2025-07-01'' 6000 ''Groceries'',
      mk_row ''CUST0001'' ''DR'' ''2025-07-03'' 50000 ''Rent'',
      mk_row ''CUST0001'' ''CR'' ''2025-07-04'' 900000 ''Salary'',
      mk_row ''CUST0002'' ''DR'' ''2025-07-05'' 123456789 ''Travel'',
      mk_row ''CUST0001'' ''DR'' ''2025-07-09'' 30000 ''EMI'',
      mk_row ''CUST0001'' ''DR'' ''2025-07-31'' 4000 ''Groceries'']"

text \<open>A second table, with rows that occur twice.\<close>

definition sample_ledger :: "row list" where
  "sample_ledger =
     [mk_row ''CUST0001'' ''DR'' ''2025-07-01'' 5000 ''Groceries'',
      mk_row ''CUST0001'' ''DR'' ''2025-07-01'' 5000 ''Groceries'',
      mk_row ''CUST0001'' ''DR'' ''2025-07-03'' 50000 ''Rent'',
      mk_row ''CUST0001'' ''CR'' ''2025-07-04'' 900000 ''Salary'',
      mk_row ''CUST0002'' ''DR'' ''2025-07-05'' 123456789 ''Travel'',
      mk_row ''CUST0001'' ''DR'' ''2025-07-31'' 15000 ''EMI'',
      mk_row ''CUST0001'' ''DR'' ''2025-07-31'' 15000 ''EMI'']"

definition sample_tools :: "string \<rightharpoonup> tool" where
  "sample_tools = [''get_total_spending'' \<mapsto> get_total_spending_tool sample_df]"

definition good_call :: tool_call where
  "good_call =
     \<lparr>tc_name = ''get_total_spending'',
      tc_args = [(''customer_id'', StrArg ''CUST0001'')], tc_id = ''call_1''\<rparr>"

text \<open>A call of a registered tool without its argument.\<close>

definition bad_call :: tool_call where
  "bad_call = \<lparr>tc_name = ''get_total_spending'', tc_args = [], tc_id = ''call_2''\<rparr>"

definition unknown_call :: tool_call where
  "unknown_call = \<lparr>tc_name = ''get_weather'', tc_args = [], tc_id = ''call_3''\<rparr>"

text \<open>Stubs of the model client; the state counts the calls made so far.\<close>

definition stub_always_calls :: "nat llm" where
  "stub_always_calls s messages = (Inr \<lparr>content = [], tool_calls = [good_call]\<rparr>, Suc s)"

definition stub_always_bad_call :: "nat llm" where
  "stub_always_bad_call s messages = (Inr \<lparr>content = [], tool_calls = [bad_call]\<rparr>, Suc s)"


definition stub_good_then_bad_call :: "nat llm" where
  "stub_good_then_bad_call s messages =
     (Inr \<lparr>content = [], tool_calls = [good_call, bad_call]\<rparr>, Suc s)"

definition stub_answer_42 :: "nat llm" where
  "stub_answer_42 s messages = (Inr \<lparr>content = ''42'', tool_calls = []\<rparr>, Suc s)"

definition stub_stream_always_calls :: "nat llm_stream" where
  "stub_stream_always_calls s messages =
     (Inr [\<lparr>content = ''Let me '', tool_calls = []\<rparr>,
           \<lparr>content = ''check.'', tool_calls = [good_call]\<rparr>], Suc s)"

definition sample_fragments :: "fragment list" where
  "sample_fragments =
     [TextFragment ''Let me '', InvocationFragment good_call, TextFragment ''check.'',
      InvocationFragment unknown_call]"

definition stub_stream_fragments :: "nat llm_stream" where
  "stub_stream_fragments s messages = (Inr (map chunk_of sample_fragments), Suc s)"

definition stub_blocking_fragments :: "nat llm" where
  "stub_blocking_fragments s messages = (Inr (spec_aggregate sample_fragments), Suc s)"

section \<open>Properties of the loops\<close>

subsection \<open>The number of model calls\<close>

lemma for_range_calls_le:
  "model_calls (for_range turn final xs s messages calls) \<le> calls + length xs"
proof (induction xs arbitrary: s messages calls)
  case Nil
  show ?case by simp
next
  case (Cons x xs)
  show ?case
  proof (cases "turn s messages")
    case (Continue s' messages')
    with Cons.IH [of s' messages' "calls + 1"] show ?thesis by simp
  qed simp_all
qed

lemma while_iteration_calls_le:
  "model_calls (while_iteration turn final mx i s messages calls) \<le> calls + nat (mx - i)"
proof (induction turn final mx i s messages calls rule: while_iteration.induct)
  case (1 turn final mx i s messages calls)
  show ?case
  proof (cases "i < mx")
    case False
    then show ?thesis by (simp add: while_iteration.simps)
  next
    case True
    show ?thesis
    proof (cases "turn s messages")
      case (Continue s' messages')
      from "1.IH" [OF True Continue]
      have "model_calls (while_iteration turn final mx (i + 1) s' messages' (calls + 1))
            \<le> calls + 1 + nat (mx - (i + 1))" .
      also have "\<dots> = calls + nat (mx - i)" using True by linarith
      finally show ?thesis using True Continue
        by (subst while_iteration.simps) simp
    qed (use True in \<open>simp_all add: while_iteration.simps\<close>)
  qed
qed

lemma for_range_keeps_going:
  "keeps_going turn (length xs) s messages \<Longrightarrow>
   for_range turn final xs s messages calls
     = \<lparr>returned = Inr final, model_calls = calls + length xs\<rparr>"
  by (induction xs arbitrary: s messages calls) (auto split: flow.splits)

lemma while_iteration_keeps_going:
  "keeps_going turn (nat (mx - i)) s messages \<Longrightarrow>
   while_iteration turn final mx i s messages calls
     = \<lparr>returned = Inr final, model_calls = calls + nat (mx - i)\<rparr>"
proof (induction turn final mx i s messages calls rule: while_iteration.induct)
  case (1 turn final mx i s messages calls)
  show ?case
  proof (cases "i < mx")
    case False
    then show ?thesis by (simp add: while_iteration.simps)
  next
    case True
    then have n: "nat (mx - i) = Suc (nat (mx - (i + 1)))" by linarith
    from "1.prems" obtain s' messages' where
      t: "turn s messages = Continue s' messages'" and
      k: "keeps_going turn (nat (mx - (i + 1))) s' messages'"
      unfolding n by (auto split: flow.splits)
    from "1.IH" [OF True t k] show ?thesis using True t n
      by (subst while_iteration.simps) simp
  qed
qed

lemma for_range_first:
  "for_range turn final (iteration # rest) s messages calls =
     (case turn s messages of
        Return answer \<Rightarrow> \<lparr>returned = Inr answer, model_calls = calls + 1\<rparr>
      | Raise e \<Rightarrow> \<lparr>returned = Inl e, model_calls = calls + 1\<rparr>
      | Continue s' messages' \<Rightarrow> for_range turn final rest s' messages' (calls + 1))"
  by simp

lemma upto_from_one: "0 < n \<Longrightarrow> [1..n] = 1 # [2..n]"
  by (subst upto.simps) simp

lemma length_upto_one: "length [1..n] = nat n"
  by simp

subsection \<open>Executing the tool calls of one turn\<close>

lemma dispatch_all_return:
  "\<forall>tc \<in> set tcs. \<not> isl (exec tc) \<Longrightarrow>
   dispatch exec tcs messages
     = (messages @ map (\<lambda>tc. ToolMessage (projr (exec tc)) (tc_id tc)) tcs, None)"
proof (induction tcs arbitrary: messages)
  case Nil
  then show ?case by simp
next
  case (Cons tc tcs)
  then obtain r where r: "exec tc = Inr r" by (cases "exec tc") auto
  with Cons show ?case by simp
qed


lemma isl_execute_tool: "isl (execute_tool tool_map tc) = tool_raises tool_map tc"
  by (simp add: execute_tool_def tool_raises_def split: option.splits)

lemma isl_run_agent_tool: "isl (run_agent_tool tool_map tc) = tool_raises tool_map tc"
  by (simp add: run_agent_tool_def tool_raises_def split: option.splits)

lemma isl_run_agent_loop_tool: "isl (run_agent_loop_tool tool_map tc) = tool_raises tool_map tc"
  by (simp add: run_agent_loop_tool_def tool_raises_def split: option.splits)

lemma isl_streaming_tool: "isl (streaming_tool tool_map tc) = tool_raises tool_map tc"
  by (simp add: streaming_tool_def tool_raises_def split: option.splits)


lemma agent_turn_all_return:
  assumes "llm s messages = (Inr response, s')"
    and "tool_calls response \<noteq> []"
    and "\<forall>tc \<in> set (tool_calls response). \<not> isl (exec tc)"
  shows "agent_turn exec llm s messages =
           Continue s' (messages @ AIMessage (content response) (tool_calls response)
              # map (\<lambda>tc. ToolMessage (projr (exec tc)) (tc_id tc)) (tool_calls response))"
  using assms by (simp add: agent_turn_def dispatch_all_return)



lemma keeps_going_always:
  assumes "\<forall>s messages. case llm s messages of
             (Inl e, s') \<Rightarrow> False
           | (Inr response, s') \<Rightarrow>
               tool_calls response \<noteq> [] \<and> (\<forall>tc \<in> set (tool_calls response). \<not> isl (exec tc))"
  shows "keeps_going (agent_turn exec llm) n s messages"
proof -
  have "\<forall>s messages. keeps_going (agent_turn exec llm) n s messages"
  proof (induction n)
    case 0
    show ?case by simp
  next
    case (Suc n)
    show ?case
    proof (intro allI)
      fix s messages
      from assms [rule_format, of s messages] obtain response s' where
        r: "llm s messages = (Inr response, s')" "tool_calls response \<noteq> []"
           "\<forall>tc \<in> set (tool_calls response). \<not> isl (exec tc)"
        by (cases "llm s messages") (auto split: sum.splits)
      from agent_turn_all_return [where exec = exec and llm = llm, OF r] Suc.IH
      show "keeps_going (agent_turn exec llm) (Suc n) s messages" by simp
    qed
  qed
  then show ?thesis by blast
qed

subsection \<open>Draining a stream\<close>

lemma collect_concat:
  "collect chunks acc_content acc_calls =
     (acc_content @ concat (map content chunks), acc_calls @ concat (map tool_calls chunks))"
  by (induction chunks arbitrary: acc_content acc_calls) simp_all

lemma content_chunk_of: "content (chunk_of f) = fragment_text f"
  by (cases f) simp_all

lemma tool_calls_chunk_of: "tool_calls (chunk_of f) = fragment_invocations f"
  by (cases f) simp_all

lemma collect_fragments:
  "collect (map chunk_of fragments) [] [] =
     (content (spec_aggregate fragments), tool_calls (spec_aggregate fragments))"
  by (simp add: collect_concat spec_aggregate_def comp_def content_chunk_of tool_calls_chunk_of)

subsection \<open>Evaluating the sample tools\<close>

lemma good_call_result:
  "get_total_spending_tool sample_df (tc_args good_call)
     = Inr ''Customer CUST0001 total spending: $900.00''"
  by (simp add: get_total_spending_tool_def good_call_def get_total_spending_def sample_df_def
      mk_row_def debit_rows_def format_2f_def thousands.simps str_nat.simps digit_def)

lemma bad_call_result:
  "get_total_spending_tool sample_df (tc_args bad_call)
     = Inl (ToolException ''ValidationError: customer_id'')"
  by (simp add: get_total_spending_tool_def bad_call_def)

lemma sample_tools_good_call: "sample_tools (tc_name good_call) = Some (get_total_spending_tool sample_df)"
  by (simp add: sample_tools_def good_call_def)

lemma sample_tools_bad_call: "sample_tools (tc_name bad_call) = Some (get_total_spending_tool sample_df)"
  by (simp add: sample_tools_def bad_call_def)

lemma sample_tools_unknown_call: "sample_tools (tc_name unknown_call) = None"
  by (simp add: sample_tools_def unknown_call_def)

lemma good_call_returns: "\<not> tool_raises sample_tools good_call"
  by (simp add: tool_raises_def sample_tools_good_call good_call_result)


lemma execute_tool_bad_call:
  "execute_tool sample_tools bad_call = Inl (ToolException ''ValidationError: customer_id'')"
  by (simp add: execute_tool_def sample_tools_bad_call bad_call_result)

lemma execute_tool_good_call:
  "execute_tool sample_tools good_call = Inr ''Customer CUST0001 total spending: $900.00''"
  by (simp add: execute_tool_def sample_tools_good_call good_call_result)

lemma run_agent_tool_bad_call:
  "run_agent_tool sample_tools bad_call = Inl (ToolException ''ValidationError: customer_id'')"
  by (simp add: run_agent_tool_def sample_tools_bad_call bad_call_result)




section \<open>The claims about the loop\<close>

subsection \<open>C1: a failure raised by a tool\<close>




subsection \<open>C2: the number of model calls\<close>

text \<open>
  C2, as stated, fails: a model that always asks for \<open>get_total_spending\<close> without
  its argument always returns a non-empty list of tool calls, yet both loops end after
  one model call, with the exception of the tool and not with the text for the cap.
\<close>

theorem iteration_cap_counterexample:
  "run_agent stub_always_bad_call 0 sample_tools ''q''
     = \<lparr>returned = Inl (ToolException ''ValidationError: customer_id''), model_calls = 1\<rparr>
   \<and> invoke stub_always_bad_call 0 sample_tools ''You are a financial analyst.'' 10 ''q''
     = \<lparr>returned = Inl (ToolException ''ValidationError: customer_id''), model_calls = 1\<rparr>"
proof -
  have "run_agent stub_always_bad_call 0 sample_tools ''q''
     = \<lparr>returned = Inl (ToolException ''ValidationError: customer_id''), model_calls = 1\<rparr>"
    unfolding run_agent_def
    by (subst while_iteration.simps)
      (simp add: agent_turn_def stub_always_bad_call_def run_agent_tool_bad_call)
  moreover
  have "invoke stub_always_bad_call 0 sample_tools ''You are a financial analyst.'' 10 ''q''
     = \<lparr>returned = Inl (ToolException ''ValidationError: customer_id''), model_calls = 1\<rparr>"
    by (simp add: invoke_def upto_from_one agent_turn_def stub_always_bad_call_def
        execute_tool_bad_call)
  ultimately show ?thesis by simp
qed

text \<open>
  C2, as the code has it. For a model client that always returns a turn with a non-empty
  list of tool calls, none of which makes a registered tool raise,
  \<open>BaseAgent.invoke\<close> makes exactly \<open>max_iterations\<close> model calls (none when
  \<open>max_iterations\<close> is not positive) and \<open>run_agent\<close> exactly 10, and each then returns
  the text for the cap. For every model client, registry and question, the number of
  model calls is at most that bound.
\<close>

theorem iteration_cap_model_calls:
  assumes "\<forall>s messages. case llm s messages of
             (Inl e, s') \<Rightarrow> False
           | (Inr response, s') \<Rightarrow>
               tool_calls response \<noteq> []
               \<and> (\<forall>tc \<in> set (tool_calls response). \<not> tool_raises tool_map tc)"
  shows "invoke llm s tool_map system_prompt max_iterations question
           = \<lparr>returned = Inr ''Max iterations reached without final answer'',
              model_calls = nat max_iterations\<rparr>
         \<and> run_agent llm s tool_map question
           = \<lparr>returned = Inr ''Max iterations reached without final answer'',
              model_calls = 10\<rparr>
         \<and> model_calls (invoke any_llm any_s any_tool_map any_prompt any_max any_question)
             \<le> nat any_max
         \<and> model_calls (run_agent any_llm any_s any_tool_map any_question) \<le> 10"
proof -
  have k1: "keeps_going (agent_turn (execute_tool tool_map) llm) n s0 m0" for n s0 m0
    by (rule keeps_going_always, unfold isl_execute_tool, rule assms)
  have k2: "keeps_going (agent_turn (run_agent_tool tool_map) llm) n s0 m0" for n s0 m0
    by (rule keeps_going_always, unfold isl_run_agent_tool, rule assms)
  have a: "invoke llm s tool_map system_prompt max_iterations question
           = \<lparr>returned = Inr ''Max iterations reached without final answer'',
              model_calls = nat max_iterations\<rparr>"
    unfolding invoke_def
    by (subst for_range_keeps_going) (simp_all add: k1)
  have b: "run_agent llm s tool_map question
           = \<lparr>returned = Inr ''Max iterations reached without final answer'',
              model_calls = 10\<rparr>"
    unfolding run_agent_def
    by (subst while_iteration_keeps_going) (simp_all add: k2)
  have c: "model_calls (invoke any_llm any_s any_tool_map any_prompt any_max any_question)
             \<le> nat any_max"
    unfolding invoke_def
    using for_range_calls_le [of "agent_turn (execute_tool any_tool_map) any_llm"
        "''Max iterations reached without final answer''" "[1..any_max]" any_s
        "[HumanMessage (any_prompt @ [CHR 0x0A, CHR 0x0A] @ ''Question: '' @ any_question)]" 0]
    by simp
  have d: "model_calls (run_agent any_llm any_s any_tool_map any_question) \<le> 10"
    unfolding run_agent_def
    using while_iteration_calls_le [of "agent_turn (run_agent_tool any_tool_map) any_llm"
        "''Max iterations reached without final answer''" 10 0 any_s
        "[HumanMessage (run_agent_prompt any_question)]" 0]
    by simp
  from a b c d show ?thesis by simp
qed

theorem iteration_cap_model_calls_witness:
  "(\<forall>s messages. case stub_always_calls s messages of
       (Inl e, s') \<Rightarrow> False
     | (Inr response, s') \<Rightarrow>
         tool_calls response \<noteq> []
         \<and> (\<forall>tc \<in> set (tool_calls response). \<not> tool_raises sample_tools tc))
   \<and> invoke stub_always_calls 0 sample_tools ''You are a financial analyst.'' 3 ''q''
       = \<lparr>returned = Inr ''Max iterations reached without final answer'', model_calls = 3\<rparr>
   \<and> run_agent stub_always_calls 0 sample_tools ''q''
       = \<lparr>returned = Inr ''Max iterations reached without final answer'', model_calls = 10\<rparr>
   \<and> model_calls (invoke stub_answer_42 0 sample_tools ''You are a financial analyst.'' 3 ''q'')
       \<le> 3
   \<and> model_calls (run_agent stub_answer_42 0 sample_tools ''q'') \<le> 10"
proof -
  have h: "\<forall>s messages. case stub_always_calls s messages of
       (Inl e, s') \<Rightarrow> False
     | (Inr response, s') \<Rightarrow>
         tool_calls response \<noteq> []
         \<and> (\<forall>tc \<in> set (tool_calls response). \<not> tool_raises sample_tools tc)"
    by (simp add: stub_always_calls_def good_call_returns)
  from iteration_cap_model_calls [OF h, of 0 "''You are a financial analyst.''" 3 "''q''"
      stub_answer_42 0 sample_tools "''You are a financial analyst.''" 3 "''q''"] h
  show ?thesis by simp
qed

subsection \<open>C3: the value returned at the cap\<close>

lemma stream_stub_keeps_going:
  "keeps_going (stream_turn (streaming_tool sample_tools) stub_stream_always_calls) n s messages"
proof -
  have "\<forall>s messages.
          keeps_going (stream_turn (streaming_tool sample_tools) stub_stream_always_calls)
            n s messages"
  proof (induction n)
    case 0
    show ?case by simp
  next
    case (Suc n)
    then show ?case
      by (simp add: stream_turn_def stub_stream_always_calls_def streaming_tool_def
          sample_tools_good_call good_call_result)
  qed
  then show ?thesis by blast
qed

lemma agent_stub_keeps_going:
  "keeps_going (agent_turn (execute_tool sample_tools) stub_always_calls) n s messages"
  "keeps_going (agent_turn (run_agent_tool sample_tools) stub_always_calls) n s messages"
  "keeps_going (agent_turn (run_agent_loop_tool sample_tools) stub_always_calls) n s messages"
  by (rule keeps_going_always,
      simp add: stub_always_calls_def isl_execute_tool isl_run_agent_tool
        isl_run_agent_loop_tool good_call_returns)+

text \<open>
  C3, as stated, fails: \<open>run_agent_loop\<close>, run with a cap of two against a model that
  always asks for a tool, makes its two model calls and returns the text
  \<open>Max iterations reached\<close>, which is not the text of the claim.
\<close>

theorem cap_sentinel_counterexample:
  "run_agent_loop stub_always_calls 0 sample_tools [HumanMessage ''q''] 2
     = \<lparr>returned = Inr ''Max iterations reached'', model_calls = 2\<rparr>"
  unfolding run_agent_loop_def
  by (subst for_range_keeps_going) (simp_all add: agent_stub_keeps_going)

text \<open>
  C3, as the code has it. A loop execution in which every iteration up to the cap ends
  with tool calls executed returns, in \<open>BaseAgent.invoke\<close> and in \<open>run_agent\<close>, the text
  \<open>Max iterations reached without final answer\<close>; in \<open>run_agent_loop\<close> and in
  \<open>demo_streaming_with_tools\<close> it returns the text \<open>Max iterations reached\<close>.
\<close>

theorem cap_sentinel_texts:
  "(keeps_going (agent_turn (execute_tool tool_map) llm) (nat max_iterations) s
      [HumanMessage (system_prompt @ [CHR 0x0A, CHR 0x0A] @ ''Question: '' @ question)]
    \<longrightarrow> invoke llm s tool_map system_prompt max_iterations question
        = \<lparr>returned = Inr ''Max iterations reached without final answer'',
           model_calls = nat max_iterations\<rparr>)
   \<and> (keeps_going (agent_turn (run_agent_tool tool_map) llm) 10 s
        [HumanMessage (run_agent_prompt question)]
      \<longrightarrow> run_agent llm s tool_map question
          = \<lparr>returned = Inr ''Max iterations reached without final answer'',
             model_calls = 10\<rparr>)
   \<and> (keeps_going (agent_turn (run_agent_loop_tool tool_map) llm) (nat max_iterations) s
        messages
      \<longrightarrow> run_agent_loop llm s tool_map messages max_iterations
          = \<lparr>returned = Inr ''Max iterations reached'', model_calls = nat max_iterations\<rparr>)
   \<and> (keeps_going (stream_turn (streaming_tool tool_map) stream) 5 s
        [HumanMessage (streaming_prompt question)]
      \<longrightarrow> demo_streaming_with_tools stream s tool_map question
          = \<lparr>returned = Inr ''Max iterations reached'', model_calls = 5\<rparr>)"
proof (intro conjI impI)
  assume "keeps_going (agent_turn (execute_tool tool_map) llm) (nat max_iterations) s
      [HumanMessage (system_prompt @ [CHR 0x0A, CHR 0x0A] @ ''Question: '' @ question)]"
  then show "invoke llm s tool_map system_prompt max_iterations question
        = \<lparr>returned = Inr ''Max iterations reached without final answer'',
           model_calls = nat max_iterations\<rparr>"
    unfolding invoke_def by (subst for_range_keeps_going) simp_all
next
  assume "keeps_going (agent_turn (run_agent_tool tool_map) llm) 10 s
        [HumanMessage (run_agent_prompt question)]"
  then show "run_agent llm s tool_map question
          = \<lparr>returned = Inr ''Max iterations reached without final answer'',
             model_calls = 10\<rparr>"
    unfolding run_agent_def by (subst while_iteration_keeps_going) simp_all
next
  assume "keeps_going (agent_turn (run_agent_loop_tool tool_map) llm) (nat max_iterations) s
        messages"
  then show "run_agent_loop llm s tool_map messages max_iterations
          = \<lparr>returned = Inr ''Max iterations reached'', model_calls = nat max_iterations\<rparr>"
    unfolding run_agent_loop_def by (subst for_range_keeps_going) simp_all
next
  assume "keeps_going (stream_turn (streaming_tool tool_map) stream) 5 s
        [HumanMessage (streaming_prompt question)]"
  then show "demo_streaming_with_tools stream s tool_map question
          = \<lparr>returned = Inr ''Max iterations reached'', model_calls = 5\<rparr>"
    unfolding demo_streaming_with_tools_def by (subst while_iteration_keeps_going) simp_all
qed

theorem cap_sentinel_texts_witness:
  "keeps_going (agent_turn (execute_tool sample_tools) stub_always_calls) (nat 3) 0
      [HumanMessage (''You are a financial analyst.'' @ [CHR 0x0A, CHR 0x0A]
         @ ''Question: '' @ ''q'')]
   \<and> invoke stub_always_calls 0 sample_tools ''You are a financial analyst.'' 3 ''q''
       = \<lparr>returned = Inr ''Max iterations reached without final answer'', model_calls = 3\<rparr>
   \<and> keeps_going (agent_turn (run_agent_tool sample_tools) stub_always_calls) 10 0
       [HumanMessage (run_agent_prompt ''q'')]
   \<and> run_agent stub_always_calls 0 sample_tools ''q''
       = \<lparr>returned = Inr ''Max iterations reached without final answer'', model_calls = 10\<rparr>
   \<and> keeps_going (agent_turn (run_agent_loop_tool sample_tools) stub_always_calls) (nat 3) 0
       [HumanMessage ''q'']
   \<and> run_agent_loop stub_always_calls 0 sample_tools [HumanMessage ''q''] 3
       = \<lparr>returned = Inr ''Max iterations reached'', model_calls = 3\<rparr>
   \<and> keeps_going (stream_turn (streaming_tool sample_tools) stub_stream_always_calls) 5 0
       [HumanMessage (streaming_prompt ''q'')]
   \<and> demo_streaming_with_tools stub_stream_always_calls 0 sample_tools ''q''
       = \<lparr>returned = Inr ''Max iterations reached'', model_calls = 5\<rparr>"
  using cap_sentinel_texts [where tool_map = sample_tools and llm = stub_always_calls
      and max_iterations = 3 and s = 0 and system_prompt = "''You are a financial analyst.''"
      and question = "''q''" and messages = "[HumanMessage ''q'']"
      and stream = stub_stream_always_calls]
    agent_stub_keeps_going [of "nat 3" 0] agent_stub_keeps_going(2) [of 10 0]
    stream_stub_keeps_going [of 5 0]
  by simp

subsection \<open>C4: a tool name that is not registered\<close>

text \<open>
  C4, as stated, fails: for a name that is not registered, \<open>run_agent\<close> produces the
  text without the single quotes, and \<open>run_agent_loop\<close> and
  \<open>demo_streaming_with_tools\<close> produce a text that does not begin with \<open>Error\<close>.
\<close>

theorem unknown_tool_counterexample:
  "run_agent_tool sample_tools unknown_call = Inr ''Error: Unknown tool get_weather''
   \<and> run_agent_loop_tool sample_tools unknown_call = Inr ''Unknown tool: get_weather''
   \<and> streaming_tool sample_tools unknown_call = Inr ''Unknown tool: get_weather''"
  by (simp add: run_agent_tool_def run_agent_loop_tool_def streaming_tool_def
      sample_tools_unknown_call) (simp add: unknown_call_def)

text \<open>
  C4, as the code has it. For a tool call whose name is not in the registry, no loop
  variant raises, and the call's \<open>ToolMessage\<close> carries a text made from the name:
  \<open>Error: Unknown tool '<name>'\<close> in \<open>BaseAgent._execute_tool\<close>,
  \<open>Error: Unknown tool <name>\<close> in \<open>run_agent\<close>, and \<open>Unknown tool: <name>\<close> in
  \<open>run_agent_loop\<close> and \<open>demo_streaming_with_tools\<close>.
\<close>

theorem unknown_tool_texts:
  assumes "tool_map (tc_name tool_call) = None"
  shows "execute_tool tool_map tool_call
           = Inr (''Error: Unknown tool '' @ [CHR 0x27] @ tc_name tool_call @ [CHR 0x27])
         \<and> run_agent_tool tool_map tool_call
           = Inr (''Error: Unknown tool '' @ tc_name tool_call)
         \<and> run_agent_loop_tool tool_map tool_call
           = Inr (''Unknown tool: '' @ tc_name tool_call)
         \<and> streaming_tool tool_map tool_call
           = Inr (''Unknown tool: '' @ tc_name tool_call)
         \<and> dispatch (execute_tool tool_map) [tool_call] messages
           = (messages @ [ToolMessage
                (''Error: Unknown tool '' @ [CHR 0x27] @ tc_name tool_call @ [CHR 0x27])
                (tc_id tool_call)], None)
         \<and> dispatch (run_agent_tool tool_map) [tool_call] messages
           = (messages @ [ToolMessage (''Error: Unknown tool '' @ tc_name tool_call)
                (tc_id tool_call)], None)
         \<and> dispatch (run_agent_loop_tool tool_map) [tool_call] messages
           = (messages @ [ToolMessage (''Unknown tool: '' @ tc_name tool_call)
                (tc_id tool_call)], None)
         \<and> dispatch (streaming_tool tool_map) [tool_call] messages
           = (messages @ [ToolMessage (''Unknown tool: '' @ tc_name tool_call)
                (tc_id tool_call)], None)"
  using assms
  by (simp add: execute_tool_def run_agent_tool_def run_agent_loop_tool_def streaming_tool_def)

theorem unknown_tool_texts_witness:
  "sample_tools (tc_name unknown_call) = None
   \<and> execute_tool sample_tools unknown_call
       = Inr (''Error: Unknown tool '' @ [CHR 0x27] @ ''get_weather'' @ [CHR 0x27])
   \<and> dispatch (execute_tool sample_tools) [unknown_call] [HumanMessage ''q'']
       = ([HumanMessage ''q'',
           ToolMessage (''Error: Unknown tool '' @ [CHR 0x27] @ ''get_weather'' @ [CHR 0x27])
             ''call_3''], None)"
  using unknown_tool_texts [where tool_map = sample_tools and tool_call = unknown_call
      and messages = "[HumanMessage ''q'']", OF sample_tools_unknown_call]
    sample_tools_unknown_call
  by (simp add: unknown_call_def)

subsection \<open>C5: the messages of one turn\<close>

text \<open>
  C5, as stated, fails: when the second of two tool calls raises, the \<open>AIMessage\<close>
  with two tool calls is followed by one \<open>ToolMessage\<close> only, and the turn ends by
  raising.
\<close>

theorem dispatch_count_counterexample:
  "dispatch (execute_tool sample_tools) [good_call, bad_call]
     [HumanMessage ''q'', AIMessage [] [good_call, bad_call]]
     = ([HumanMessage ''q'', AIMessage [] [good_call, bad_call],
         ToolMessage ''Customer CUST0001 total spending: $900.00'' ''call_1''],
        Some (ToolException ''ValidationError: customer_id''))
   \<and> agent_turn (execute_tool sample_tools) stub_good_then_bad_call 0 [HumanMessage ''q'']
     = Raise (ToolException ''ValidationError: customer_id'')"
  by (simp add: agent_turn_def stub_good_then_bad_call_def execute_tool_good_call
      execute_tool_bad_call) (simp add: good_call_def)

text \<open>
  C5, as the code has it. For every model turn whose list of tool calls is non-empty and
  in which no registered tool raises, the iteration appends one \<open>AIMessage\<close> carrying
  that list and then exactly one \<open>ToolMessage\<close> per tool call, in the order of the list
  and with the identifier of its call, and hands this conversation to the next model
  call.
\<close>

theorem turn_appends_one_result_per_call:
  assumes "llm s messages = (Inr response, s')"
    and "tool_calls response \<noteq> []"
    and "\<forall>tc \<in> set (tool_calls response). \<not> tool_raises tool_map tc"
  shows "agent_turn (execute_tool tool_map) llm s messages
           = Continue s'
               (messages @ AIMessage (content response) (tool_calls response)
                  # map (\<lambda>tc. ToolMessage (projr (execute_tool tool_map tc)) (tc_id tc))
                      (tool_calls response))
         \<and> agent_turn (run_agent_tool tool_map) llm s messages
           = Continue s'
               (messages @ AIMessage (content response) (tool_calls response)
                  # map (\<lambda>tc. ToolMessage (projr (run_agent_tool tool_map tc)) (tc_id tc))
                      (tool_calls response))
         \<and> length (map (\<lambda>tc. ToolMessage (projr (execute_tool tool_map tc)) (tc_id tc))
              (tool_calls response)) = length (tool_calls response)"
proof -
  from assms(3) have a: "\<forall>tc \<in> set (tool_calls response). \<not> isl (execute_tool tool_map tc)"
    by (simp add: isl_execute_tool)
  from assms(3) have b: "\<forall>tc \<in> set (tool_calls response). \<not> isl (run_agent_tool tool_map tc)"
    by (simp add: isl_run_agent_tool)
  from agent_turn_all_return [where exec = "execute_tool tool_map" and llm = llm,
      OF assms(1,2) a]
    agent_turn_all_return [where exec = "run_agent_tool tool_map" and llm = llm,
      OF assms(1,2) b]
  show ?thesis by simp
qed

theorem turn_appends_one_result_per_call_witness:
  "stub_always_calls 0 [HumanMessage ''q'']
     = (Inr \<lparr>content = [], tool_calls = [good_call]\<rparr>, Suc 0)
   \<and> \<not> tool_raises sample_tools good_call
   \<and> agent_turn (execute_tool sample_tools) stub_always_calls 0 [HumanMessage ''q'']
       = Continue (Suc 0)
           [HumanMessage ''q'', AIMessage [] [good_call],
            ToolMessage ''Customer CUST0001 total spending: $900.00'' ''call_1'']"
proof -
  have a: "stub_always_calls 0 [HumanMessage ''q'']
     = (Inr \<lparr>content = [], tool_calls = [good_call]\<rparr>, Suc 0)"
    by (simp add: stub_always_calls_def)
  have b: "tool_calls \<lparr>content = [], tool_calls = [good_call]\<rparr> \<noteq> []"
    by simp
  have c: "\<forall>tc \<in> set (tool_calls \<lparr>content = [], tool_calls = [good_call]\<rparr>).
             \<not> tool_raises sample_tools tc"
    by (simp add: good_call_returns)
  from turn_appends_one_result_per_call [where llm = stub_always_calls and s = 0
      and messages = "[HumanMessage ''q'']" and tool_map = sample_tools
      and response = "\<lparr>content = [], tool_calls = [good_call]\<rparr>" and s' = "Suc 0",
      OF a b c] a good_call_returns
  show ?thesis by (simp add: execute_tool_good_call) (simp add: good_call_def)
qed

subsection \<open>C7: a first turn without tool calls\<close>



subsection \<open>C6: the two delivery modes\<close>

text \<open>
  C6. Draining a finite sequence of fragments with the loop of \<open>BaseAgent.stream\<close> and
  \<open>demo_streaming_with_tools\<close> gives the text and the tool calls of the turn that the
  specification assigns to the sequence (text fragments concatenated in order,
  invocation fragments in order); so, with a blocking backend that returns this turn,
  an iteration of the streaming loop does what an iteration of the blocking loop does.
  The draining loop also concatenates chunks that carry both a text and tool calls.
\<close>

theorem streaming_turn_equals_blocking_turn:
  assumes "stream s messages = (Inr (map chunk_of fragments), s')"
    and "llm s messages = (Inr (spec_aggregate fragments), s')"
  shows "collect (map chunk_of fragments) [] []
           = (content (spec_aggregate fragments), tool_calls (spec_aggregate fragments))
         \<and> stream_turn exec stream s messages = agent_turn exec llm s messages
         \<and> collect chunks [] [] = (concat (map content chunks), concat (map tool_calls chunks))"
proof -
  have c: "collect (map chunk_of fragments) [] []
           = (content (spec_aggregate fragments), tool_calls (spec_aggregate fragments))"
    by (rule collect_fragments)
  have t: "stream_turn exec stream s messages = agent_turn exec llm s messages"
    using assms by (simp add: stream_turn_def agent_turn_def c)
  have g: "collect chunks [] [] = (concat (map content chunks), concat (map tool_calls chunks))"
    by (simp add: collect_concat)
  show ?thesis by (intro conjI c t g)
qed

theorem streaming_turn_equals_blocking_turn_witness:
  "stub_stream_fragments 0 [HumanMessage ''q''] = (Inr (map chunk_of sample_fragments), Suc 0)
   \<and> stub_blocking_fragments 0 [HumanMessage ''q'']
       = (Inr (spec_aggregate sample_fragments), Suc 0)
   \<and> collect (map chunk_of sample_fragments) [] []
       = (''Let me check.'', [good_call, unknown_call])
   \<and> stream_turn (streaming_tool sample_tools) stub_stream_fragments 0 [HumanMessage ''q'']
       = agent_turn (streaming_tool sample_tools) stub_blocking_fragments 0
           [HumanMessage ''q'']"
proof -
  have a: "stub_stream_fragments 0 [HumanMessage ''q'']
             = (Inr (map chunk_of sample_fragments), Suc 0)"
    by (simp add: stub_stream_fragments_def)
  have b: "stub_blocking_fragments 0 [HumanMessage ''q'']
             = (Inr (spec_aggregate sample_fragments), Suc 0)"
    by (simp add: stub_blocking_fragments_def)
  have c: "content (spec_aggregate sample_fragments) = ''Let me check.''"
    "tool_calls (spec_aggregate sample_fragments) = [good_call, unknown_call]"
    by (simp_all add: spec_aggregate_def sample_fragments_def)
  note t = streaming_turn_equals_blocking_turn [where stream = stub_stream_fragments
      and llm = stub_blocking_fragments and s = 0 and messages = "[HumanMessage ''q'']"
      and fragments = sample_fragments and s' = "Suc 0"
      and exec = "streaming_tool sample_tools" and chunks = "[]", OF a b]
  have t1: "collect (map chunk_of sample_fragments) [] []
       = (''Let me check.'', [good_call, unknown_call])"
    using t [THEN conjunct1] by (simp only: c)
  have t2: "stream_turn (streaming_tool sample_tools) stub_stream_fragments 0
         [HumanMessage ''q'']
       = agent_turn (streaming_tool sample_tools) stub_blocking_fragments 0
           [HumanMessage ''q'']"
    using t [THEN conjunct2, THEN conjunct1] .
  show ?thesis by (intro conjI a b t1 t2)
qed

section \<open>The claims about the spending tools\<close>

subsection \<open>Formatting and sorting\<close>

lemma format_2f_zero: "format_2f 0 = ''0.00''"
  by (simp add: format_2f_def thousands.simps str_nat.simps digit_def)

lemma sort_values_descending_sorted:
  "sorted_wrt (\<lambda>a b. snd b \<le> snd a) (sort_values_descending series)"
proof -
  have "sorted (map snd (sort_key snd (rev series)))"
    by (rule sorted_sort_key)
  then have "sorted_wrt (\<lambda>a b. snd a \<le> snd b) (sort_key snd (rev series))"
    by (simp add: sorted_wrt_map)
  then show ?thesis
    by (simp add: sort_values_descending_def sorted_wrt_rev)
qed

lemma head_sorted:
  "sorted_wrt P xs \<Longrightarrow> sorted_wrt P (head n xs)"
  by (simp add: head_def sorted_wrt_take)

lemma length_head: "0 \<le> n \<Longrightarrow> length (head n xs) \<le> nat n"
  by (simp add: head_def)

lemma top_cats_descending:
  "sorted_wrt (\<lambda>a b. snd b \<le> snd a) (top_cats df customer_id top_n)"
  by (simp add: top_cats_def Let_def head_sorted sort_values_descending_sorted)

lemma length_top_cats: "0 \<le> top_n \<Longrightarrow> length (top_cats df customer_id top_n) \<le> nat top_n"
  by (simp add: top_cats_def Let_def length_head)

lemma three_categories_sorted:
  assumes "set cs = {''Groceries'', ''Rent'', ''EMI''}"
  shows "sort (remdups cs) = [''EMI'', ''Groceries'', ''Rent'']"
proof -
  have "sort (remdups cs) = sorted_list_of_set (set cs)"
    by (simp add: sorted_list_of_set_sort_remdups)
  also have "\<dots> = sorted_list_of_set (set [''Groceries'', ''Rent'', ''EMI''])"
    using assms by simp
  also have "\<dots> = sort (remdups [''Groceries'', ''Rent'', ''EMI''])"
    by (simp only: sorted_list_of_set_sort_remdups)
  also have "\<dots> = [''EMI'', ''Groceries'', ''Rent'']"
    by simp
  finally show ?thesis .
qed

subsection \<open>The ranking in terms of the rows of the table\<close>

lemma set_debit_rows:
  "set (debit_rows df c) = {r \<in> set df. cust_id r = c \<and> dr_cr_indctor r = ''DR''}"
  by (auto simp: debit_rows_def)

lemma category_total_debit_rows:
  "category_total (debit_rows df c) k
     = sum_list (map tran_amt_in_ac
         (filter (\<lambda>r. cust_id r = c \<and> dr_cr_indctor r = ''DR'' \<and> category_of_txn r = k) df))"
  by (simp add: category_total_def debit_rows_def conj_assoc)

lemma set_groupby_sum:
  "set (groupby_sum rows) = (\<lambda>k. (k, category_total rows k)) ` category_of_txn ` set rows"
  by (simp add: groupby_sum_def)

lemma distinct_groupby_sum: "distinct (map fst (groupby_sum rows))"
  by (simp add: groupby_sum_def comp_def)

lemma length_groupby_sum: "length (groupby_sum rows) = card (category_of_txn ` set rows)"
proof -
  have "length (groupby_sum rows) = length (remdups (map category_of_txn rows))"
    by (simp add: groupby_sum_def)
  also have "\<dots> = card (set (map category_of_txn rows))"
    by (rule length_remdups_card_conv)
  finally show ?thesis by simp
qed

lemma set_sort_values_descending: "set (sort_values_descending series) = set series"
  by (simp add: sort_values_descending_def)

lemma length_sort_values_descending:
  "length (sort_values_descending series) = length series"
  by (simp add: sort_values_descending_def)

lemma distinct_fst_sort_values_descending:
  assumes "distinct (map fst series)"
  shows "distinct (map fst (sort_values_descending series))"
proof -
  from assms have d: "distinct series" and i: "inj_on fst (set series)"
    by (simp_all add: distinct_map)
  from d have "distinct (sort_values_descending series)"
    by (simp add: sort_values_descending_def)
  with i show ?thesis
    by (simp add: distinct_map set_sort_values_descending)
qed

lemma distinct_snd_sort_values_descending:
  assumes "distinct (map snd series)"
  shows "distinct (map snd (sort_values_descending series))"
proof -
  from assms have d: "distinct series" and i: "inj_on snd (set series)"
    by (simp_all add: distinct_map)
  from d have "distinct (sort_values_descending series)"
    by (simp add: sort_values_descending_def)
  with i show ?thesis
    by (simp add: distinct_map set_sort_values_descending)
qed

lemma head_is_take: "\<exists>m. head n xs = take m xs"
  by (auto simp: head_def)

lemma head_nat: "head (int k) xs = take k xs"
  by (simp add: head_def)

lemma top_cats_is_take:
  "\<exists>m. top_cats df c n = take m (sort_values_descending (groupby_sum (debit_rows df c)))"
  by (simp add: top_cats_def head_is_take)

lemma top_cats_nat:
  "top_cats df c (int k) = take k (sort_values_descending (groupby_sum (debit_rows df c)))"
  by (simp add: top_cats_def head_nat)

lemma set_top_cats_subset:
  "set (top_cats df c n)
     \<subseteq> (\<lambda>k. (k, category_total (debit_rows df c) k)) ` category_of_txn ` set (debit_rows df c)"
proof -
  obtain m where m: "top_cats df c n
      = take m (sort_values_descending (groupby_sum (debit_rows df c)))"
    using top_cats_is_take by blast
  have "set (top_cats df c n) \<subseteq> set (sort_values_descending (groupby_sum (debit_rows df c)))"
    unfolding m by (rule set_take_subset)
  then show ?thesis
    by (simp only: set_sort_values_descending set_groupby_sum)
qed

lemma distinct_fst_top_cats: "distinct (map fst (top_cats df c n))"
proof -
  obtain m where m: "top_cats df c n
      = take m (sort_values_descending (groupby_sum (debit_rows df c)))"
    using top_cats_is_take by blast
  have "distinct (map fst (sort_values_descending (groupby_sum (debit_rows df c))))"
    by (rule distinct_fst_sort_values_descending) (rule distinct_groupby_sum)
  then show ?thesis
    unfolding m by (simp add: take_map [symmetric])
qed

lemma length_top_cats_eq:
  "length (top_cats df c (int k)) = min k (card (category_of_txn ` set (debit_rows df c)))"
  by (simp add: top_cats_nat length_sort_values_descending length_groupby_sum min.commute)

lemma top_cats_left_out:
  assumes "k \<in> category_of_txn ` set (debit_rows df c)"
    and "k \<notin> fst ` set (top_cats df c (int m))"
    and "p \<in> set (top_cats df c (int m))"
  shows "category_total (debit_rows df c) k \<le> snd p"
proof -
  let ?s = "sort_values_descending (groupby_sum (debit_rows df c))"
  let ?e = "(k, category_total (debit_rows df c) k)"
  from assms(1) have "?e \<in> set ?s"
    by (simp add: set_sort_values_descending set_groupby_sum)
  then have "?e \<in> set (take m ?s) \<or> ?e \<in> set (drop m ?s)"
    using set_append [of "take m ?s" "drop m ?s"] by simp
  moreover from assms(2) have "?e \<notin> set (take m ?s)"
    by (force simp: top_cats_nat)
  ultimately have d: "?e \<in> set (drop m ?s)" by simp
  have "sorted_wrt (\<lambda>a b. snd b \<le> snd a) (take m ?s @ drop m ?s)"
    by (simp add: sort_values_descending_sorted)
  then have "\<forall>x \<in> set (take m ?s). \<forall>y \<in> set (drop m ?s). snd y \<le> snd x"
    unfolding sorted_wrt_append by blast
  with d assms(3) show ?thesis
    by (force simp: top_cats_nat)
qed

lemma sorted_wrt_strict:
  "sorted_wrt (\<lambda>a b. f b \<le> f a) xs \<Longrightarrow> distinct (map f xs)
   \<Longrightarrow> sorted_wrt (\<lambda>a b. (f b :: int) < f a) xs"
  by (induction xs) (fastforce simp: less_le image_iff)+

lemma top_cats_strict:
  assumes "inj_on (category_total (debit_rows df c)) (category_of_txn ` set (debit_rows df c))"
  shows "sorted_wrt (\<lambda>a b. snd b < snd a) (top_cats df c n)"
proof -
  let ?rows = "debit_rows df c"
  obtain m where m: "top_cats df c n = take m (sort_values_descending (groupby_sum ?rows))"
    using top_cats_is_take by blast
  have "map snd (groupby_sum ?rows)
          = map (category_total ?rows) (sort (remdups (map category_of_txn ?rows)))"
    by (simp add: groupby_sum_def comp_def)
  moreover have "distinct (map (category_total ?rows) (sort (remdups (map category_of_txn ?rows))))"
    using assms by (simp add: distinct_map)
  ultimately have "distinct (map snd (groupby_sum ?rows))" by simp
  then have "distinct (map snd (sort_values_descending (groupby_sum ?rows)))"
    by (rule distinct_snd_sort_values_descending)
  then have "distinct (map snd (top_cats df c n))"
    unfolding m by (simp add: take_map [symmetric])
  with top_cats_descending [of df c n] show ?thesis
    by (rule sorted_wrt_strict)
qed

subsection \<open>C8: the top spending categories\<close>

text \<open>
  C8. For every dataset in which the debit rows of customer \<open>CUST0001\<close> have the
  categories Groceries, Rent and EMI and their amounts add up to 100, 500 and 300
  (amounts in cents here), \<open>top_spending_categories\<close> with \<open>top_n = 2\<close> yields Rent
  (500) and then EMI (300), and the text that lists them in this order; for every
  \<open>top_n\<close> that is not negative it yields the first \<open>top_n\<close> entries of the ranking
  Rent, EMI, Groceries, whose totals are strictly descending.

  For every dataset, customer and \<open>top_n\<close>: each entry is a category of the customer's
  debit rows with the sum of the amounts of those rows; no category occurs twice; the
  number of entries is the smaller of \<open>top_n\<close> and the number of categories; the totals
  are in descending order, strictly when no two categories have the same total; and a
  category that is left out has a total no greater than any total that is kept. The
  text returned is the heading with \<open>top_n\<close> and the customer, followed by one
  numbered line per entry, in this order.
\<close>

theorem top_two_spending_categories:
  assumes "category_of_txn ` {r \<in> set df. cust_id r = ''CUST0001'' \<and> dr_cr_indctor r = ''DR''}
             = {''Groceries'', ''Rent'', ''EMI''}"
    and "sum_list (map tran_amt_in_ac
           (filter (\<lambda>r. cust_id r = ''CUST0001'' \<and> dr_cr_indctor r = ''DR''
                        \<and> category_of_txn r = ''Groceries'') df)) = 10000"
    and "sum_list (map tran_amt_in_ac
           (filter (\<lambda>r. cust_id r = ''CUST0001'' \<and> dr_cr_indctor r = ''DR''
                        \<and> category_of_txn r = ''Rent'') df)) = 50000"
    and "sum_list (map tran_amt_in_ac
           (filter (\<lambda>r. cust_id r = ''CUST0001'' \<and> dr_cr_indctor r = ''DR''
                        \<and> category_of_txn r = ''EMI'') df)) = 30000"
  shows "top_cats df ''CUST0001'' 2 = [(''Rent'', 50000), (''EMI'', 30000)]
         \<and> top_spending_categories df ''CUST0001'' 2
           = ''Top 2 spending categories for CUST0001:'' @ [CHR 0x0A]
             @ ''  1. Rent: $500.00'' @ [CHR 0x0A]
             @ ''  2. EMI: $300.00'' @ [CHR 0x0A]
         \<and> top_cats df ''CUST0001'' (int n)
           = take n [(''Rent'', 50000), (''EMI'', 30000), (''Groceries'', 10000)]
         \<and> sorted_wrt (\<lambda>a b. snd b < snd a) (top_cats df ''CUST0001'' (int n))
         \<and> set (top_cats any_df any_customer any_n)
             \<subseteq> (\<lambda>k. (k, sum_list (map tran_amt_in_ac
                          (filter (\<lambda>r. cust_id r = any_customer \<and> dr_cr_indctor r = ''DR''
                                       \<and> category_of_txn r = k) any_df))))
               ` category_of_txn
               ` {r \<in> set any_df. cust_id r = any_customer \<and> dr_cr_indctor r = ''DR''}
         \<and> distinct (map fst (top_cats any_df any_customer any_n))
         \<and> length (top_cats any_df any_customer (int m))
             = min m (card (category_of_txn
                 ` {r \<in> set any_df. cust_id r = any_customer \<and> dr_cr_indctor r = ''DR''}))
         \<and> sorted_wrt (\<lambda>a b. snd b \<le> snd a) (top_cats any_df any_customer any_n)
         \<and> (inj_on (\<lambda>k. sum_list (map tran_amt_in_ac
                          (filter (\<lambda>r. cust_id r = any_customer \<and> dr_cr_indctor r = ''DR''
                                       \<and> category_of_txn r = k) any_df)))
               (category_of_txn
                 ` {r \<in> set any_df. cust_id r = any_customer \<and> dr_cr_indctor r = ''DR''})
             \<longrightarrow> sorted_wrt (\<lambda>a b. snd b < snd a) (top_cats any_df any_customer any_n))
         \<and> (\<forall>k \<in> category_of_txn
                 ` {r \<in> set any_df. cust_id r = any_customer \<and> dr_cr_indctor r = ''DR''}.
              k \<notin> fst ` set (top_cats any_df any_customer (int m))
              \<longrightarrow> (\<forall>p \<in> set (top_cats any_df any_customer (int m)).
                     sum_list (map tran_amt_in_ac
                       (filter (\<lambda>r. cust_id r = any_customer \<and> dr_cr_indctor r = ''DR''
                                    \<and> category_of_txn r = k) any_df)) \<le> snd p))
         \<and> top_spending_categories any_df any_customer any_n
           = ''Top '' @ str_int any_n @ '' spending categories for '' @ any_customer @ '':''
             @ [CHR 0x0A]
             @ concat (map (\<lambda>(i, cat, amt).
                   ''  '' @ str_nat i @ ''. '' @ cat @ '': $'' @ format_2f amt @ [CHR 0x0A])
                 (zip [1 ..< Suc (length (top_cats any_df any_customer any_n))]
                    (top_cats any_df any_customer any_n)))"
proof -
  have c: "set (map category_of_txn (debit_rows df ''CUST0001''))
             = {''Groceries'', ''Rent'', ''EMI''}"
    using assms(1) by (simp add: set_debit_rows)
  have g: "groupby_sum (debit_rows df ''CUST0001'')
             = [(''EMI'', 30000), (''Groceries'', 10000), (''Rent'', 50000)]"
    unfolding groupby_sum_def three_categories_sorted [OF c]
    using assms(2-4) by (simp add: category_total_debit_rows)
  have r: "sort_values_descending (groupby_sum (debit_rows df ''CUST0001''))
             = [(''Rent'', 50000), (''EMI'', 30000), (''Groceries'', 10000)]"
    by (simp add: g sort_values_descending_def)
  have n: "top_cats df ''CUST0001'' (int n)
             = take n [(''Rent'', 50000), (''EMI'', 30000), (''Groceries'', 10000)]"
    by (simp add: top_cats_nat r)
  have t: "top_cats df ''CUST0001'' 2 = [(''Rent'', 50000), (''EMI'', 30000)]"
    using top_cats_nat [of df "''CUST0001''" 2] by (simp add: r)
  have s: "top_spending_categories df ''CUST0001'' 2
           = ''Top 2 spending categories for CUST0001:'' @ [CHR 0x0A]
             @ ''  1. Rent: $500.00'' @ [CHR 0x0A]
             @ ''  2. EMI: $300.00'' @ [CHR 0x0A]"
    by (simp add: top_spending_categories_def t enumerate_eq_zip upt_rec str_int_def
        format_2f_def thousands.simps str_nat.simps digit_def)
  have "sorted_wrt (\<lambda>a b. snd b < (snd a :: int))
          (take n [(''Rent'', 50000), (''EMI'', 30000), (''Groceries'', 10000)])"
    by (rule sorted_wrt_take) simp
  then have st: "sorted_wrt (\<lambda>a b. snd b < snd a) (top_cats df ''CUST0001'' (int n))"
    by (simp only: n)
  note raw = set_debit_rows category_total_debit_rows
  note g1 = set_top_cats_subset [of any_df any_customer any_n, unfolded raw]
  note g2 = distinct_fst_top_cats [of any_df any_customer any_n]
  note g3 = length_top_cats_eq [of any_df any_customer m, unfolded raw]
  note g4 = top_cats_descending [of any_df any_customer any_n]
  have g5: "inj_on (\<lambda>k. sum_list (map tran_amt_in_ac
                          (filter (\<lambda>r. cust_id r = any_customer \<and> dr_cr_indctor r = ''DR''
                                       \<and> category_of_txn r = k) any_df)))
               (category_of_txn
                 ` {r \<in> set any_df. cust_id r = any_customer \<and> dr_cr_indctor r = ''DR''})
             \<longrightarrow> sorted_wrt (\<lambda>a b. snd b < snd a) (top_cats any_df any_customer any_n)"
    using top_cats_strict [of any_df any_customer any_n, unfolded raw] by blast
  have g6: "\<forall>k \<in> category_of_txn
                 ` {r \<in> set any_df. cust_id r = any_customer \<and> dr_cr_indctor r = ''DR''}.
              k \<notin> fst ` set (top_cats any_df any_customer (int m))
              \<longrightarrow> (\<forall>p \<in> set (top_cats any_df any_customer (int m)).
                     sum_list (map tran_amt_in_ac
                       (filter (\<lambda>r. cust_id r = any_customer \<and> dr_cr_indctor r = ''DR''
                                    \<and> category_of_txn r = k) any_df)) \<le> snd p)"
    using top_cats_left_out [of _ any_df any_customer m, unfolded raw] by blast
  have g7: "top_spending_categories any_df any_customer any_n
           = ''Top '' @ str_int any_n @ '' spending categories for '' @ any_customer @ '':''
             @ [CHR 0x0A]
             @ concat (map (\<lambda>(i, cat, amt).
                   ''  '' @ str_nat i @ ''. '' @ cat @ '': $'' @ format_2f amt @ [CHR 0x0A])
                 (zip [1 ..< Suc (length (top_cats any_df any_customer any_n))]
                    (top_cats any_df any_customer any_n)))"
    by (simp add: top_spending_categories_def enumerate_eq_zip)
  show ?thesis
    by (intro conjI t s n st g1 g2 g3 g4 g5 g6 g7)
qed

theorem top_two_spending_categories_witness:
  "category_of_txn ` {r \<in> set sample_ledger. cust_id r = ''CUST0001'' \<and> dr_cr_indctor r = ''DR''}
     = {''Groceries'', ''Rent'', ''EMI''}
   \<and> sum_list (map tran_amt_in_ac
        (filter (\<lambda>r. cust_id r = ''CUST0001'' \<and> dr_cr_indctor r = ''DR''
                     \<and> category_of_txn r = ''Groceries'') sample_ledger)) = 10000
   \<and> sum_list (map tran_amt_in_ac
        (filter (\<lambda>r. cust_id r = ''CUST0001'' \<and> dr_cr_indctor r = ''DR''
                     \<and> category_of_txn r = ''Rent'') sample_ledger)) = 50000
   \<and> sum_list (map tran_amt_in_ac
        (filter (\<lambda>r. cust_id r = ''CUST0001'' \<and> dr_cr_indctor r = ''DR''
                     \<and> category_of_txn r = ''EMI'') sample_ledger)) = 30000
   \<and> top_cats sample_ledger ''CUST0001'' 2 = [(''Rent'', 50000), (''EMI'', 30000)]
   \<and> top_spending_categories sample_ledger ''CUST0001'' 2
       = ''Top 2 spending categories for CUST0001:'' @ [CHR 0x0A]
         @ ''  1. Rent: $500.00'' @ [CHR 0x0A]
         @ ''  2. EMI: $300.00'' @ [CHR 0x0A]
   \<and> top_cats sample_ledger ''CUST0001'' (int 5)
       = [(''Rent'', 50000), (''EMI'', 30000), (''Groceries'', 10000)]
   \<and> length (top_cats sample_ledger ''CUST0002'' (int 5)) = 1"
proof -
  have a: "category_of_txn
             ` {r \<in> set sample_ledger. cust_id r = ''CUST0001'' \<and> dr_cr_indctor r = ''DR''}
           = {''Groceries'', ''Rent'', ''EMI''}"
    unfolding set_filter [symmetric]
    by (auto simp: sample_ledger_def mk_row_def)
  have b: "sum_list (map tran_amt_in_ac
        (filter (\<lambda>r. cust_id r = ''CUST0001'' \<and> dr_cr_indctor r = ''DR''
                     \<and> category_of_txn r = ''Groceries'') sample_ledger)) = 10000"
    "sum_list (map tran_amt_in_ac
        (filter (\<lambda>r. cust_id r = ''CUST0001'' \<and> dr_cr_indctor r = ''DR''
                     \<and> category_of_txn r = ''Rent'') sample_ledger)) = 50000"
    "sum_list (map tran_amt_in_ac
        (filter (\<lambda>r. cust_id r = ''CUST0001'' \<and> dr_cr_indctor r = ''DR''
                     \<and> category_of_txn r = ''EMI'') sample_ledger)) = 30000"
    by (simp_all add: sample_ledger_def mk_row_def)
  note t = top_two_spending_categories [where df = sample_ledger and n = 5
      and any_df = sample_ledger and any_customer = "''CUST0002''" and m = 5, OF a b]
  have c: "top_cats sample_ledger ''CUST0001'' (int 5)
       = [(''Rent'', 50000), (''EMI'', 30000), (''Groceries'', 10000)]"
    using t [THEN conjunct2, THEN conjunct2, THEN conjunct1] by simp
  have "category_of_txn
          ` {r \<in> set sample_ledger. cust_id r = ''CUST0002'' \<and> dr_cr_indctor r = ''DR''}
        = {''Travel''}"
    unfolding set_filter [symmetric]
    by (auto simp: sample_ledger_def mk_row_def)
  then have d: "length (top_cats sample_ledger ''CUST0002'' (int 5)) = 1"
    using t [THEN conjunct2, THEN conjunct2, THEN conjunct2, THEN conjunct2, THEN conjunct2,
        THEN conjunct2, THEN conjunct1]
    by simp
  show ?thesis
    by (intro conjI a b t [THEN conjunct1] t [THEN conjunct2, THEN conjunct1] c d)
qed

subsection \<open>C9: the bounds of the date range\<close>

text \<open>
  C9, as stated, fails: the claim is for every \<open>start_date\<close> and \<open>end_date\<close>, but with
  the start after the end the tool counts no row at all, although the table holds a
  debit row of the customer dated \<open>start_date\<close>.
\<close>

theorem date_range_counterexample:
  "mk_row ''CUST0001'' ''DR'' ''2025-07-31'' 4000 ''Groceries'' \<in> set sample_df
   \<and> spending_in_date_range sample_df ''CUST0001'' ''2025-07-31'' ''2025-07-01''
       = ''Customer CUST0001 spent $0.00 between 2025-07-31 and 2025-07-01 (0 transactions)''"
  by (simp add: spending_in_date_range_def date_range_rows_def sample_df_def mk_row_def
      format_2f_def thousands.simps str_nat.simps digit_def)

text \<open>
  C9, as the code has it. For every dataset, customer and dates with \<open>start_date\<close> not
  after \<open>end_date\<close> (as strings), \<open>spending_in_date_range\<close> counts each debit row of the
  customer dated \<open>start_date\<close> or \<open>end_date\<close>, every time it occurs: the row adds its
  amount to the total and one to the number of transactions in the text. For all dates,
  the rows counted are the debit rows of the customer with
  \<open>start_date \<le> tran_date \<le> end_date\<close>, compared as strings, in the order and number in
  which the table holds them; so with \<open>end_date\<close> before \<open>start_date\<close> the text reports
  no transaction.
\<close>

theorem date_range_bounds_inclusive:
  assumes "cust_id r = customer_id"
    and "dr_cr_indctor r = ''DR''"
    and "start_date \<le> end_date"
    and "tran_date r = start_date \<or> tran_date r = end_date"
  shows "spending_in_date_range (before @ r # after) customer_id start_date end_date
           = ''Customer '' @ customer_id @ '' spent $''
             @ format_2f (tran_amt_in_ac r + sum_list (map tran_amt_in_ac
                 (filter (\<lambda>x. cust_id x = customer_id \<and> dr_cr_indctor x = ''DR''
                              \<and> start_date \<le> tran_date x \<and> tran_date x \<le> end_date)
                    (before @ after))))
             @ '' between '' @ start_date @ '' and '' @ end_date @ '' (''
             @ str_nat (Suc (length
                 (filter (\<lambda>x. cust_id x = customer_id \<and> dr_cr_indctor x = ''DR''
                              \<and> start_date \<le> tran_date x \<and> tran_date x \<le> end_date)
                    (before @ after))))
             @ '' transactions)''
         \<and> date_range_rows any_df any_customer any_start any_end
           = filter (\<lambda>x. cust_id x = any_customer \<and> dr_cr_indctor x = ''DR''
                        \<and> any_start \<le> tran_date x \<and> tran_date x \<le> any_end) any_df
         \<and> spending_in_date_range any_df any_customer any_start any_end
           = ''Customer '' @ any_customer @ '' spent $''
             @ format_2f (sum_list (map tran_amt_in_ac
                 (filter (\<lambda>x. cust_id x = any_customer \<and> dr_cr_indctor x = ''DR''
                              \<and> any_start \<le> tran_date x \<and> tran_date x \<le> any_end) any_df)))
             @ '' between '' @ any_start @ '' and '' @ any_end @ '' (''
             @ str_nat (length
                 (filter (\<lambda>x. cust_id x = any_customer \<and> dr_cr_indctor x = ''DR''
                              \<and> any_start \<le> tran_date x \<and> tran_date x \<le> any_end) any_df))
             @ '' transactions)''
         \<and> (any_end < any_start \<longrightarrow>
              spending_in_date_range any_df any_customer any_start any_end
              = ''Customer '' @ any_customer @ '' spent $0.00 between '' @ any_start
                @ '' and '' @ any_end @ '' (0 transactions)'')"
proof -
  have rows: "date_range_rows d c s e
           = filter (\<lambda>x. cust_id x = c \<and> dr_cr_indctor x = ''DR''
                        \<and> s \<le> tran_date x \<and> tran_date x \<le> e) d" for d c s e
    by (simp add: date_range_rows_def)
  have body: "spending_in_date_range d c s e
           = ''Customer '' @ c @ '' spent $''
             @ format_2f (sum_list (map tran_amt_in_ac
                 (filter (\<lambda>x. cust_id x = c \<and> dr_cr_indctor x = ''DR''
                              \<and> s \<le> tran_date x \<and> tran_date x \<le> e) d)))
             @ '' between '' @ s @ '' and '' @ e @ '' (''
             @ str_nat (length
                 (filter (\<lambda>x. cust_id x = c \<and> dr_cr_indctor x = ''DR''
                              \<and> s \<le> tran_date x \<and> tran_date x \<le> e) d))
             @ '' transactions)''" for d c s e
    by (simp add: spending_in_date_range_def rows Let_def)
  from assms have sel: "cust_id r = customer_id \<and> dr_cr_indctor r = ''DR''
      \<and> start_date \<le> tran_date r \<and> tran_date r \<le> end_date"
    by auto
  have a: "spending_in_date_range (before @ r # after) customer_id start_date end_date
           = ''Customer '' @ customer_id @ '' spent $''
             @ format_2f (tran_amt_in_ac r + sum_list (map tran_amt_in_ac
                 (filter (\<lambda>x. cust_id x = customer_id \<and> dr_cr_indctor x = ''DR''
                              \<and> start_date \<le> tran_date x \<and> tran_date x \<le> end_date)
                    (before @ after))))
             @ '' between '' @ start_date @ '' and '' @ end_date @ '' (''
             @ str_nat (Suc (length
                 (filter (\<lambda>x. cust_id x = customer_id \<and> dr_cr_indctor x = ''DR''
                              \<and> start_date \<le> tran_date x \<and> tran_date x \<le> end_date)
                    (before @ after))))
             @ '' transactions)''"
    unfolding body using sel by (simp add: add.commute add.left_commute)
  have none: "filter (\<lambda>x. cust_id x = any_customer \<and> dr_cr_indctor x = ''DR''
                        \<and> any_start \<le> tran_date x \<and> tran_date x \<le> any_end) any_df = []"
    if "any_end < any_start"
    using that by (auto simp: filter_empty_conv)
  have z: "str_nat 0 = ''0''"
    by (simp add: str_nat.simps digit_def)
  have d: "any_end < any_start \<longrightarrow>
              spending_in_date_range any_df any_customer any_start any_end
              = ''Customer '' @ any_customer @ '' spent $0.00 between '' @ any_start
                @ '' and '' @ any_end @ '' (0 transactions)''"
    unfolding body by (simp add: none format_2f_zero z)
  show ?thesis
    by (intro conjI a rows body d)
qed

theorem date_range_bounds_inclusive_witness:
  "cust_id (mk_row ''CUST0001'' ''DR'' ''2025-07-31'' 15000 ''EMI'') = ''CUST0001''
   \<and> dr_cr_indctor (mk_row ''CUST0001'' ''DR'' ''2025-07-31'' 15000 ''EMI'') = ''DR''
   \<and> (''2025-07-03'' :: string) \<le> ''2025-07-31''
   \<and> tran_date (mk_row ''CUST0001'' ''DR'' ''2025-07-31'' 15000 ''EMI'') = ''2025-07-31''
   \<and> spending_in_date_range sample_ledger ''CUST0001'' ''2025-07-03'' ''2025-07-31''
       = ''Customer CUST0001 spent $800.00 between 2025-07-03 and 2025-07-31 (3 transactions)''
   \<and> (''2025-07-03'' :: string) < ''2025-07-31''
   \<and> spending_in_date_range sample_ledger ''CUST0001'' ''2025-07-31'' ''2025-07-03''
       = ''Customer CUST0001 spent $0.00 between 2025-07-31 and 2025-07-03 (0 transactions)''"
proof -
  let ?r = "mk_row ''CUST0001'' ''DR'' ''2025-07-31'' 15000 ''EMI''"
  let ?before = "[mk_row ''CUST0001'' ''DR'' ''2025-07-01'' 5000 ''Groceries'',
      mk_row ''CUST0001'' ''DR'' ''2025-07-01'' 5000 ''Groceries'',
      mk_row ''CUST0001'' ''DR'' ''2025-07-03'' 50000 ''Rent'',
      mk_row ''CUST0001'' ''CR'' ''2025-07-04'' 900000 ''Salary'',
      mk_row ''CUST0002'' ''DR'' ''2025-07-05'' 123456789 ''Travel'',
      mk_row ''CUST0001'' ''DR'' ''2025-07-31'' 15000 ''EMI'']"
  have l: "sample_ledger = ?before @ ?r # []"
    by (simp add: sample_ledger_def)
  have a: "cust_id ?r = ''CUST0001''" and b: "dr_cr_indctor ?r = ''DR''"
    and d: "tran_date ?r = ''2025-07-31''"
    by (simp_all add: mk_row_def)
  have c: "(''2025-07-03'' :: string) \<le> ''2025-07-31''" by simp
  have d': "tran_date ?r = ''2025-07-03'' \<or> tran_date ?r = ''2025-07-31''"
    using d by simp
  have e: "spending_in_date_range sample_ledger ''CUST0001'' ''2025-07-03'' ''2025-07-31''
       = ''Customer CUST0001 spent $800.00 between 2025-07-03 and 2025-07-31 (3 transactions)''"
    unfolding l
    by (subst date_range_bounds_inclusive [where before = ?before and r = ?r and after = "[]",
          OF a b c d', THEN conjunct1])
      (simp add: mk_row_def format_2f_def thousands.simps str_nat.simps digit_def)
  have f: "(''2025-07-03'' :: string) < ''2025-07-31''" by simp
  have g: "spending_in_date_range sample_ledger ''CUST0001'' ''2025-07-31'' ''2025-07-03''
       = ''Customer CUST0001 spent $0.00 between 2025-07-31 and 2025-07-03 (0 transactions)''"
    using date_range_bounds_inclusive [where before = ?before and r = ?r and after = "[]"
        and any_df = sample_ledger and any_customer = "''CUST0001''"
        and any_start = "''2025-07-31''" and any_end = "''2025-07-03''",
        OF a b c d', THEN conjunct2, THEN conjunct2, THEN conjunct2, THEN mp, OF f]
    by simp
  show ?thesis
    by (intro conjI a b c d e f g)
qed

subsection \<open>C10: a customer without debit rows\<close>

text \<open>
  C10. For every customer identifier that matches no debit row of the dataset (in
  particular one that matches no row at all), \<open>get_total_spending\<close> returns the text
  \<open>Customer <customer_id> total spending: $0.00\<close>, and the tool called with this
  identifier returns that text and does not raise.
\<close>

theorem total_spending_of_unknown_customer:
  assumes "\<forall>r \<in> set df. cust_id r = customer_id \<longrightarrow> dr_cr_indctor r \<noteq> ''DR''"
  shows "get_total_spending df customer_id
           = ''Customer '' @ customer_id @ '' total spending: $0.00''
         \<and> get_total_spending_tool df [(''customer_id'', StrArg customer_id)]
           = Inr (''Customer '' @ customer_id @ '' total spending: $0.00'')"
proof -
  from assms have "debit_rows df customer_id = []"
    by (auto simp: debit_rows_def filter_empty_conv)
  then have "get_total_spending df customer_id
           = ''Customer '' @ customer_id @ '' total spending: $0.00''"
    by (simp add: get_total_spending_def format_2f_zero)
  then show ?thesis
    by (simp add: get_total_spending_tool_def)
qed

theorem total_spending_of_unknown_customer_witness:
  "debit_rows sample_df ''CUST0009'' = []
   \<and> get_total_spending sample_df ''CUST0009'' = ''Customer CUST0009 total spending: $0.00''
   \<and> get_total_spending_tool sample_df [(''customer_id'', StrArg ''CUST0009'')]
       = Inr ''Customer CUST0009 total spending: $0.00''"
proof -
  have a: "\<forall>r \<in> set sample_df. cust_id r = ''CUST0009'' \<longrightarrow> dr_cr_indctor r \<noteq> ''DR''"
    by (simp add: sample_df_def mk_row_def)
  have b: "debit_rows sample_df ''CUST0009'' = []"
    by (simp add: debit_rows_def sample_df_def mk_row_def)
  from total_spending_of_unknown_customer [OF a] b show ?thesis
    by simp
qed

end
